theory Spec2Isabelle
  imports Main
begin

text \<open>
  The voice receptionist: the conversation panel of the page, with its history buffer,
  its submit logic and its speech adapters, and the endpoint \<open>/api/respond\<close> that
  assembles the messages for the hosted model. The panel is modelled as a record of its
  state variables, refs and surroundings, and every handler as a function on that
  record; an asynchronous handler is split at its \<open>await\<close>. Values that come from the
  platform (identifiers, the clock, the outcome of a remote call) are arguments.
\<close>

section \<open>Strings and JSON values\<close>

text \<open>
  A JavaScript string is modelled as a \<open>string\<close>: the sequence of its code units, for
  code units below 256. \<open>String.prototype.trim\<close> removes white space and line
  terminators from both ends; in that range these are TAB, LF, VT, FF, CR, SPACE and
  NBSP. The empty string is the only falsy string.
\<close>

definition is_space :: "char \<Rightarrow> bool" where
  "is_space c \<longleftrightarrow>
     c \<in> set [CHR 0x09, CHR 0x0A, CHR 0x0B, CHR 0x0C, CHR 0x0D, CHR 0x20, CHR 0xA0]"

definition trim :: "string \<Rightarrow> string" where
  "trim s = rev (dropWhile is_space (rev (dropWhile is_space s)))"

text \<open>Decimal rendering of a number inside a template literal.\<close>

fun show_nat :: "nat \<Rightarrow> string" where
  "show_nat n =
     (if n < 10 then [''0123456789'' ! n]
      else show_nat (n div 10) @ [''0123456789'' ! (n mod 10)])"

declare show_nat.simps [simp del]

definition show_int :: "int \<Rightarrow> string" where
  "show_int i = (if i < 0 then ''-'' @ show_nat (nat (- i)) else show_nat (nat i))"

text \<open>
  A parsed JSON value. An object is the list of its own properties, keys distinct, as
  \<open>JSON.parse\<close> builds it. A number stands for an integer of magnitude below \<open>2^53\<close>,
  the range in which the parser is exact and \<open>ToString\<close> prints plain decimal digits;
  fractions and larger numbers are not modelled. Numbers matter below only through
  their truthiness and their rendering.
\<close>

datatype json =
    JNull
  | JBool bool
  | JNum int
  | JStr string
  | JArr "json list"
  | JObj "(string \<times> json) list"

text \<open>Truthiness of a value (\<open>!v\<close>, \<open>v && \<dots>\<close>, \<open>v || \<dots>\<close>).\<close>

fun truthy :: "json \<Rightarrow> bool" where
  "truthy JNull = False"
| "truthy (JBool b) = b"
| "truthy (JNum n) = (n \<noteq> 0)"
| "truthy (JStr s) = (s \<noteq> [])"
| "truthy (JArr xs) = True"
| "truthy (JObj kvs) = True"

text \<open>
  Reading a property \<open>v.k\<close> of a value that is not null, for the keys the program reads
  (\<open>prompt\<close>, \<open>history\<close>, \<open>role\<close>, \<open>content\<close>, \<open>error\<close>, \<open>message\<close>, \<open>reply\<close>,
  \<open>choices\<close>): \<open>None\<close> is \<open>undefined\<close>. Primitives and arrays have none of these keys.
\<close>

fun get_prop :: "json \<Rightarrow> string \<Rightarrow> json option" where
  "get_prop (JObj kvs) k = map_of kvs k"
| "get_prop v k = None"

text \<open>
  What is thrown and caught: an \<open>Error\<close> object with its message, or some other value
  (\<open>err instanceof Error\<close> is false for it).
\<close>

datatype thrown = ErrorObj string | NonError

text \<open>\<open>err instanceof Error ? err.message : fallback\<close>\<close>

fun message_or :: "thrown \<Rightarrow> string \<Rightarrow> string" where
  "message_or (ErrorObj m) fallback = m"
| "message_or NonError fallback = fallback"

text \<open>\<open>ToString\<close> of a value, as \<open>new Error(v)\<close> and the engine's messages apply it.\<close>

fun join_with :: "string \<Rightarrow> string list \<Rightarrow> string" where
  "join_with sep [] = []"
| "join_with sep [x] = x"
| "join_with sep (x # y # ys) = x @ sep @ join_with sep (y # ys)"

fun to_string :: "json \<Rightarrow> string" where
  "to_string JNull = ''null''"
| "to_string (JBool b) = (if b then ''true'' else ''false'')"
| "to_string (JNum n) = show_int n"
| "to_string (JStr s) = s"
| "to_string (JArr xs) =
     join_with '','' (map (\<lambda>x. if x = JNull then [] else to_string x) xs)"
| "to_string (JObj kvs) = ''[object Object]''"

text \<open>
  The operator \<open>k in v\<close>, for the keys \<open>error\<close> and \<open>reply\<close>: a \<open>TypeError\<close> when \<open>v\<close>
  is not an object (the message is the engine's; V8's wording is used), otherwise
  whether the key is present; an array has neither key.
\<close>

fun in_operator :: "string \<Rightarrow> json \<Rightarrow> thrown + bool" where
  "in_operator k (JObj kvs) = Inr (map_of kvs k \<noteq> None)"
| "in_operator k (JArr xs) = Inr False"
| "in_operator k v =
     Inl (ErrorObj (''Cannot use 'in' operator to search for '' @ [CHR 0x27] @ k @
       [CHR 0x27] @ '' in '' @ to_string v))"

section \<open>The conversation panel (src/components/voice-agent-panel.tsx)\<close>

subsection \<open>Data\<close>

datatype role = User | Assistant

fun role_name :: "role \<Rightarrow> string" where
  "role_name User = ''user''"
| "role_name Assistant = ''assistant''"

record message =
  msg_id :: string
  role :: role
  content :: string
  createdAt :: nat

datatype recognitionStatus = Idle | Initializing | Listening

text \<open>
  \<open>createMessage\<close>: \<open>uid\<close> is what \<open>makeId()\<close> returns and \<open>now\<close> what \<open>Date.now()\<close>
  returns at this call.
\<close>

definition createMessage :: "role \<Rightarrow> string \<Rightarrow> string \<Rightarrow> nat \<Rightarrow> message" where
  "createMessage r c uid now =
     \<lparr>msg_id = role_name r @ ''-'' @ uid, role = r, content = c, createdAt = now\<rparr>"

definition MAX_HISTORY :: nat where
  "MAX_HISTORY = 12"

text \<open>\<open>xs.slice(-n)\<close>: the last \<open>n\<close> elements, all of them when there are fewer.\<close>

definition slice_last :: "nat \<Rightarrow> 'a list \<Rightarrow> 'a list" where
  "slice_last n xs = drop (length xs - n) xs"

text \<open>
  The callbacks of one render capture that render's values of the state variables:
  \<open>handleSend\<close> captures \<open>isProcessing\<close> and, through \<open>synthSpeak\<close>, \<open>autoSpeak\<close>;
  \<open>handleSubmit\<close> captures \<open>pendingInput\<close>; \<open>handleToggleRecording\<close> captures \<open>status\<close>.
\<close>

record closure =
  c_isProcessing :: bool
  c_autoSpeak :: bool
  c_pendingInput :: string
  c_status :: recognitionStatus

text \<open>The body of the request to \<open>/api/respond\<close>.\<close>

record request =
  prompt :: string
  history :: "(role \<times> string) list"

text \<open>A \<open>handleSend\<close> call suspended at its \<open>await fetch\<close>: its closure and what it sent.\<close>

record pending_call =
  p_closure :: closure
  p_request :: request

record utterance =
  u_text :: string
  rate_pct :: nat
  pitch_pct :: nat
  lang :: string

text \<open>
  The component instance with its surroundings. The state variables hold the value last
  set; \<open>rendered\<close> holds the callbacks of the last render, which are the ones attached to
  the page. \<open>recognitionRef\<close> holds the recognition object, represented by the closure its
  \<open>onresult\<close> handler captured when the object was created. \<open>speechSynthesis\<close> is the
  platform's utterance queue, \<open>pending\<close> the remote calls issued and not yet settled.
\<close>

record panel =
  messages :: "message list"
  status :: recognitionStatus
  transcript :: string
  pendingInput :: string
  error :: "string option"
  isProcessing :: bool
  autoSpeak :: bool
  messagesRef :: "message list"
  speechAllowedRef :: bool
  recognitionRef :: "closure option"
  rendered :: closure
  windowDefined :: bool
  recognitionSupported :: bool
  speechSynthesis :: "utterance list"
  pending :: "pending_call list"

definition closure_of :: "panel \<Rightarrow> closure" where
  "closure_of st =
     \<lparr>c_isProcessing = isProcessing st, c_autoSpeak = autoSpeak st,
      c_pendingInput = pendingInput st, c_status = status st\<rparr>"

definition greeting :: string where
  "greeting =
     ''Hello! I'm your AI receptionist. Tap the microphone or type to tell me how I can help.''"

text \<open>The state after the first render; \<open>w\<close> and \<open>r\<close> say what the platform offers.\<close>

definition initial :: "bool \<Rightarrow> bool \<Rightarrow> string \<Rightarrow> nat \<Rightarrow> panel" where
  "initial w r uid now =
     (let ms = [createMessage Assistant greeting uid now] in
      \<lparr>messages = ms, status = Idle, transcript = [], pendingInput = [], error = None,
       isProcessing = False, autoSpeak = True, messagesRef = ms, speechAllowedRef = False,
       recognitionRef = None,
       rendered = \<lparr>c_isProcessing = False, c_autoSpeak = True, c_pendingInput = [],
                   c_status = Idle\<rparr>,
       windowDefined = w, recognitionSupported = r, speechSynthesis = [], pending = []\<rparr>)"

subsection \<open>Speech output\<close>

text \<open>
  \<open>speechSynthesis.cancel()\<close> empties the utterance queue, \<open>speak\<close> adds to its end. The
  platform is taken to offer speech synthesis wherever it offers a window.
\<close>

definition cancel :: "utterance list \<Rightarrow> utterance list" where
  "cancel q = []"

definition speak :: "utterance \<Rightarrow> utterance list \<Rightarrow> utterance list" where
  "speak u q = q @ [u]"

definition synthSpeak :: "closure \<Rightarrow> string \<Rightarrow> panel \<Rightarrow> panel" where
  "synthSpeak c txt st =
     (if \<not> windowDefined st \<or> \<not> speechAllowedRef st \<or> \<not> c_autoSpeak c then st
      else
        let utterance = \<lparr>u_text = txt, rate_pct = 100, pitch_pct = 105, lang = ''en-US''\<rparr>
        in st\<lparr>speechSynthesis := speak utterance (cancel (speechSynthesis st))\<rparr>)"

subsection \<open>Submitting a turn\<close>

text \<open>
  \<open>handleSend\<close> up to its \<open>await fetch(\<dots>)\<close>. The call returns at once when the trimmed
  input is empty or the captured \<open>isProcessing\<close> is true. Otherwise the turn is added to
  the buffer, the flags are set, and the request is issued.
\<close>

definition handleSend :: "closure \<Rightarrow> string \<Rightarrow> string \<Rightarrow> nat \<Rightarrow> panel \<Rightarrow> panel" where
  "handleSend c input uid now st =
     (let content = trim input in
      if content = [] \<or> c_isProcessing c then st
      else
        let userMessage = createMessage User content uid now;
            history = slice_last MAX_HISTORY (messagesRef st @ [userMessage])
        in st\<lparr>messagesRef := history, messages := history, pendingInput := [],
              transcript := [], isProcessing := True, error := None,
              pending := pending st @
                [\<lparr>p_closure = c,
                  p_request = \<lparr>prompt = content,
                     history = map (\<lambda>entry. (role entry, message.content entry)) history\<rparr>\<rparr>]\<rparr>)"

text \<open>
  How the remote call ends: \<open>fetch\<close> rejects, or resolves to a response with a status
  and a body that \<open>response.json()\<close> parses or rejects.
\<close>

datatype body = Unparseable thrown | Json json

datatype fetch_outcome = Rejected thrown | Response nat body

definition response_ok :: "nat \<Rightarrow> bool" where
  "response_ok st \<longleftrightarrow> 200 \<le> st \<and> st \<le> 299"

text \<open>
  The message of the error thrown for a response that is not ok:
  \<open>(payload && "error" in payload && payload.error) || `Request failed (${status})`\<close>,
  where \<open>payload\<close> is null when the body does not parse. \<open>Inl\<close> is the \<open>TypeError\<close> of
  \<open>in\<close> on a primitive.
\<close>

definition failure_message :: "nat \<Rightarrow> body \<Rightarrow> thrown + string" where
  "failure_message st b =
     (let payload = (case b of Unparseable e \<Rightarrow> JNull | Json j \<Rightarrow> j);
          fallback = ''Request failed ('' @ show_nat st @ '')''
      in if \<not> truthy payload then Inr fallback
         else case in_operator ''error'' payload of
           Inl e \<Rightarrow> Inl e
         | Inr False \<Rightarrow> Inr fallback
         | Inr True \<Rightarrow>
             (case get_prop payload ''error'' of
                None \<Rightarrow> Inr fallback
              | Some v \<Rightarrow> if truthy v then Inr (to_string v) else Inr fallback))"

text \<open>The \<open>try\<close> block up to the reply: what it throws, or the reply string.\<close>

definition read_reply :: "fetch_outcome \<Rightarrow> thrown + string" where
  "read_reply out =
     (case out of
        Rejected e \<Rightarrow> Inl e
      | Response st b \<Rightarrow>
          if \<not> response_ok st then
            (case failure_message st b of
               Inl e \<Rightarrow> Inl e
             | Inr m \<Rightarrow> Inl (ErrorObj m))
          else
            (case b of
               Unparseable e \<Rightarrow> Inl e
             | Json data \<Rightarrow>
                 (case in_operator ''reply'' data of
                    Inl e \<Rightarrow> Inl e
                  | Inr present \<Rightarrow>
                      (case get_prop data ''reply'' of
                         Some (JStr r) \<Rightarrow>
                           if present then Inr r
                           else Inl (ErrorObj ''Invalid response from server.'')
                       | _ \<Rightarrow> Inl (ErrorObj ''Invalid response from server.'')))))"

text \<open>
  \<open>handleSend\<close> from the \<open>await\<close> on, for the call that captured \<open>c\<close>: the rest of the
  \<open>try\<close> block, the \<open>catch\<close> and the \<open>finally\<close>. \<open>uid\<close> and \<open>now\<close> are read only when the
  assistant message is created.
\<close>

definition handleSend_resume ::
    "closure \<Rightarrow> fetch_outcome \<Rightarrow> string \<Rightarrow> nat \<Rightarrow> panel \<Rightarrow> panel" where
  "handleSend_resume c out uid now st =
     (let st' =
        (case read_reply out of
           Inr reply \<Rightarrow>
             let assistantMessage = createMessage Assistant (trim reply) uid now;
                 nextMessages = slice_last MAX_HISTORY (messagesRef st @ [assistantMessage])
             in synthSpeak c (content assistantMessage)
                  (st\<lparr>messagesRef := nextMessages, messages := nextMessages\<rparr>)
         | Inl err \<Rightarrow>
             st\<lparr>error := Some (message_or err ''Failed to reach the server.'')\<rparr>)
      in st'\<lparr>isProcessing := False\<rparr>)"

subsection \<open>Speech capture\<close>

record recognitionResult =
  isFinal :: bool
  transcript0 :: string

record recognitionEvent =
  resultIndex :: nat
  results :: "recognitionResult list"

text \<open>The loop of \<open>onresult\<close> over the results from \<open>resultIndex\<close> on.\<close>

fun collect :: "recognitionResult list \<Rightarrow> string \<times> string \<Rightarrow> string \<times> string" where
  "collect [] acc = acc"
| "collect (result # rest) (finalText, interimText) =
     (if isFinal result then collect rest (finalText @ transcript0 result, interimText)
      else collect rest (finalText, interimText @ transcript0 result))"

definition onresult :: "closure \<Rightarrow> recognitionEvent \<Rightarrow> string \<Rightarrow> nat \<Rightarrow> panel \<Rightarrow> panel" where
  "onresult c event uid now st =
     (case collect (drop (resultIndex event) (results event)) ([], []) of
        (finalText, interimText) \<Rightarrow>
          if finalText \<noteq> [] then handleSend c (trim finalText) uid now (st\<lparr>transcript := []\<rparr>)
          else st\<lparr>transcript := trim interimText\<rparr>)"

definition onstart :: "panel \<Rightarrow> panel" where
  "onstart st = st\<lparr>status := Listening, transcript := [], error := None\<rparr>"

definition onerror :: "string \<Rightarrow> panel \<Rightarrow> panel" where
  "onerror e st =
     st\<lparr>status := Idle, error := Some (if e \<noteq> [] then e else ''Voice recognition error.'')\<rparr>"

definition onend :: "panel \<Rightarrow> panel" where
  "onend st = st\<lparr>status := Idle\<rparr>"

text \<open>
  \<open>ensureRecognition\<close>: the recognition object, created on first use with the handlers
  of the calling render and kept in \<open>recognitionRef\<close> from then on.
\<close>

definition ensureRecognition :: "closure \<Rightarrow> panel \<Rightarrow> closure option \<times> panel" where
  "ensureRecognition c st =
     (if \<not> windowDefined st then (None, st)
      else case recognitionRef st of
        Some r \<Rightarrow> (Some r, st)
      | None \<Rightarrow>
          if \<not> recognitionSupported st
          then (None, st\<lparr>error := Some ''Voice input is not supported in this browser.''\<rparr>)
          else (Some c, st\<lparr>recognitionRef := Some c\<rparr>))"

text \<open>\<open>handleToggleRecording\<close>; \<open>started\<close> is what \<open>recognition.start()\<close> throws, if it does.\<close>

definition handleToggleRecording :: "closure \<Rightarrow> thrown option \<Rightarrow> panel \<Rightarrow> panel" where
  "handleToggleRecording c started st =
     (case ensureRecognition c st of
        (None, st1) \<Rightarrow> st1
      | (Some r, st1) \<Rightarrow>
          if c_status c = Listening then st1\<lparr>status := Idle\<rparr>
          else
            (case started of
               None \<Rightarrow> st1\<lparr>status := Initializing\<rparr>
             | Some err \<Rightarrow>
                 st1\<lparr>error := Some (message_or err ''Unable to start voice capture.''),
                     status := Idle\<rparr>))"

definition handleSubmit :: "closure \<Rightarrow> string \<Rightarrow> nat \<Rightarrow> panel \<Rightarrow> panel" where
  "handleSubmit c uid now st = handleSend c (c_pendingInput c) uid now st"

subsection \<open>Events\<close>

text \<open>
  Everything runs on one thread, one event at a time: a render with its effects, a
  pointer press, the auto-voice switch, typing, the form, the microphone button, the
  recognition callbacks, and the settling of the \<open>i\<close>-th pending remote call.
\<close>

datatype event =
    Commit
  | PointerDown
  | ToggleAutoSpeak
  | Typed string
  | SubmitForm string nat
  | MicClick "thrown option"
  | RecStart
  | RecError string
  | RecResult recognitionEvent string nat
  | RecEnd
  | Settle nat fetch_outcome string nat

definition remove_nth :: "nat \<Rightarrow> 'a list \<Rightarrow> 'a list" where
  "remove_nth i xs = take i xs @ drop (Suc i) xs"

fun step :: "event \<Rightarrow> panel \<Rightarrow> panel" where
  "step Commit st = st\<lparr>rendered := closure_of st, messagesRef := messages st\<rparr>"
| "step PointerDown st = (if windowDefined st then st\<lparr>speechAllowedRef := True\<rparr> else st)"
| "step ToggleAutoSpeak st = st\<lparr>autoSpeak := \<not> autoSpeak st\<rparr>"
| "step (Typed s) st = st\<lparr>pendingInput := s\<rparr>"
| "step (SubmitForm uid now) st = handleSubmit (rendered st) uid now st"
| "step (MicClick started) st = handleToggleRecording (rendered st) started st"
| "step RecStart st = (case recognitionRef st of None \<Rightarrow> st | Some r \<Rightarrow> onstart st)"
| "step (RecError e) st = (case recognitionRef st of None \<Rightarrow> st | Some r \<Rightarrow> onerror e st)"
| "step (RecResult ev uid now) st =
     (case recognitionRef st of None \<Rightarrow> st | Some r \<Rightarrow> onresult r ev uid now st)"
| "step RecEnd st = (case recognitionRef st of None \<Rightarrow> st | Some r \<Rightarrow> onend st)"
| "step (Settle i out uid now) st =
     (if i < length (pending st)
      then handleSend_resume (p_closure (pending st ! i)) out uid now
             (st\<lparr>pending := remove_nth i (pending st)\<rparr>)
      else st)"

fun run :: "event list \<Rightarrow> panel \<Rightarrow> panel" where
  "run [] st = st"
| "run (e # es) st = run es (step e st)"

section \<open>The responder endpoint (src/app/api/respond/route.ts)\<close>

definition SYSTEM_PROMPT :: string where
  "SYSTEM_PROMPT = trim
     (''\<newline>You are '' @ [CHR 0x22] @ ''Clara'' @ [CHR 0x22] @
      '', an AI receptionist for a modern workplace. Your goals:\<newline>'' @
      ''- Provide warm, professional greetings.\<newline>'' @
      ''- Quickly identify caller intent, contact details, and preferred follow-up.\<newline>'' @
      ''- Offer clear next steps, including booking meetings, capturing messages, or escalating when needed.\<newline>'' @
      ''- Keep responses concise (2-4 sentences) while sounding human and empathetic.\<newline>'' @
      ''- Confirm key information back to the caller.\<newline>'' @
      ''- If unsure, politely request clarification.\<newline>'' @
      ''Respond in plain text without markdown lists unless specifically requested by the caller.\<newline>'')"

definition FALLBACK_REPLY :: string where
  "FALLBACK_REPLY = ''I'm sorry, but I couldn't generate a response right now.''"

text \<open>The roles of the messages sent upstream: the system instruction, or a chat turn.\<close>

datatype api_role = System | Chat role

text \<open>\<open>role === "user" || role === "assistant"\<close>, on the property read from the item.\<close>

fun role_of :: "json option \<Rightarrow> role option" where
  "role_of (Some (JStr s)) =
     (if s = ''user'' then Some User else if s = ''assistant'' then Some Assistant else None)"
| "role_of v = None"

text \<open>One pass of the loop over the history: the entry it pushes, if it pushes one.\<close>

definition history_entry :: "json \<Rightarrow> (role \<times> string) option" where
  "history_entry item =
     (if \<not> truthy item then None
      else case role_of (get_prop item ''role'') of
        None \<Rightarrow> None
      | Some r \<Rightarrow>
          (case get_prop item ''content'' of
             Some (JStr c) \<Rightarrow> if trim c \<noteq> [] then Some (r, trim c) else None
           | _ \<Rightarrow> None))"

fun push_valid :: "json list \<Rightarrow> (role \<times> string) list \<Rightarrow> (role \<times> string) list" where
  "push_valid [] conversation = conversation"
| "push_valid (item # rest) conversation =
     (case history_entry item of
        None \<Rightarrow> push_valid rest conversation
      | Some e \<Rightarrow> push_valid rest (conversation @ [e]))"

text \<open>The message list sent upstream, from the trimmed prompt and the raw history.\<close>

definition build_messages :: "string \<Rightarrow> json list \<Rightarrow> (api_role \<times> string) list" where
  "build_messages p rawHistory =
     (let conversation = push_valid (slice_last 12 rawHistory) [];
          msgs = (System, SYSTEM_PROMPT) # map (\<lambda>(r, c). (Chat r, c)) conversation
      in if conversation = [] \<or> snd (last conversation) \<noteq> p \<or> fst (last conversation) \<noteq> User
         then msgs @ [(Chat User, p)]
         else msgs)"

text \<open>
  The error text for an upstream response that is not ok:
  \<open>(errorPayload && errorPayload.error && errorPayload.error.message) || fallback\<close>.
\<close>

definition upstream_error :: "nat \<Rightarrow> body \<Rightarrow> json" where
  "upstream_error st b =
     (let errorPayload = (case b of Unparseable e \<Rightarrow> JNull | Json j \<Rightarrow> j);
          fallback = JStr (''Upstream model error ('' @ show_nat st @ '').'')
      in if \<not> truthy errorPayload then fallback
         else case get_prop errorPayload ''error'' of
           None \<Rightarrow> fallback
         | Some e \<Rightarrow>
             if \<not> truthy e then fallback
             else (case get_prop e ''message'' of
                     None \<Rightarrow> fallback
                   | Some m \<Rightarrow> if truthy m then m else fallback))"

text \<open>
  Optional chaining \<open>v?.f\<close>: \<open>undefined\<close> when \<open>v\<close> is \<open>undefined\<close> or null. \<open>v?.[0]\<close> reads
  the first element of an array, the key \<open>0\<close> of an object, the first unit of a string.
\<close>

fun chain :: "json option \<Rightarrow> (json \<Rightarrow> json option) \<Rightarrow> json option" where
  "chain None f = None"
| "chain (Some JNull) f = None"
| "chain (Some v) f = f v"

fun first_elem :: "json \<Rightarrow> json option" where
  "first_elem (JArr xs) = (case xs of [] \<Rightarrow> None | x # rest \<Rightarrow> Some x)"
| "first_elem (JObj kvs) = map_of kvs ''0''"
| "first_elem (JStr s) = (case s of [] \<Rightarrow> None | ch # rest \<Rightarrow> Some (JStr [ch]))"
| "first_elem v = None"

text \<open>
  \<open>payload.choices?.[0]?.message?.content?.trim() ?? fallback\<close>. Reading \<open>choices\<close> of
  null and calling \<open>trim\<close> on a value that is not a string throw a \<open>TypeError\<close> (V8's
  wording).
\<close>

definition choice_content :: "json \<Rightarrow> json option" where
  "choice_content payload =
     chain (chain (chain (get_prop payload ''choices'') first_elem)
              (\<lambda>v. get_prop v ''message''))
       (\<lambda>v. get_prop v ''content'')"

definition read_choice :: "json \<Rightarrow> thrown + string" where
  "read_choice payload =
     (if payload = JNull
      then Inl (ErrorObj ''Cannot read properties of null (reading 'choices')'')
      else
        case choice_content payload of
          None \<Rightarrow> Inr FALLBACK_REPLY
        | Some JNull \<Rightarrow> Inr FALLBACK_REPLY
        | Some (JStr s) \<Rightarrow> Inr (trim s)
        | Some v \<Rightarrow>
            Inl (ErrorObj ''payload.choices?.[0]?.message?.content?.trim is not a function''))"

record http_response =
  http_status :: nat
  http_body :: json

definition error_response :: "nat \<Rightarrow> json \<Rightarrow> http_response" where
  "error_response st m = \<lparr>http_status = st, http_body = JObj [(''error'', m)]\<rparr>"

text \<open>
  \<open>typeof body.prompt === "string" ? body.prompt.trim() : ""\<close> and
  \<open>Array.isArray(body.history) ? body.history : []\<close>, for a body that is not null.
\<close>

definition read_prompt :: "json \<Rightarrow> string" where
  "read_prompt body = (case get_prop body ''prompt'' of Some (JStr s) \<Rightarrow> trim s | _ \<Rightarrow> [])"

definition read_history :: "json \<Rightarrow> json list" where
  "read_history body = (case get_prop body ''history'' of Some (JArr xs) \<Rightarrow> xs | _ \<Rightarrow> [])"

text \<open>
  \<open>POST\<close>: \<open>apiKey\<close> is \<open>process.env.OPENAI_API_KEY\<close>, \<open>requestBody\<close> what
  \<open>request.json()\<close> yields, \<open>upstream\<close> how the call to the model ends for the messages
  sent. \<open>Inl\<close> is an exception that leaves the handler.
\<close>

definition POST ::
    "string option \<Rightarrow> body \<Rightarrow> ((api_role \<times> string) list \<Rightarrow> fetch_outcome) \<Rightarrow>
     thrown + http_response" where
  "POST apiKey requestBody upstream =
     (if apiKey = None \<or> apiKey = Some []
      then Inr (error_response 500 (JStr ''Server misconfigured: missing OpenAI API key.''))
      else case requestBody of
        Unparseable e \<Rightarrow> Inr (error_response 400 (JStr ''Invalid JSON body.''))
      | Json body \<Rightarrow>
          if body = JNull
          then Inl (ErrorObj ''Cannot read properties of null (reading 'prompt')'')
          else
            let p = read_prompt body
            in if p = [] then Inr (error_response 400 (JStr ''Provide a prompt message.''))
               else
                 let rawHistory = read_history body
                 in (case upstream (build_messages p rawHistory) of
                       Rejected err \<Rightarrow>
                         Inr (error_response 500
                                (JStr (message_or err ''Unexpected server error.'')))
                     | Response st b \<Rightarrow>
                         if \<not> response_ok st
                         then Inr (error_response 502 (upstream_error st b))
                         else
                           (case b of
                              Unparseable err \<Rightarrow>
                                Inr (error_response 500
                                       (JStr (message_or err ''Unexpected server error.'')))
                            | Json payload \<Rightarrow>
                                (case read_choice payload of
                                   Inl err \<Rightarrow>
                                     Inr (error_response 500
                                            (JStr (message_or err ''Unexpected server error.'')))
                                 | Inr reply \<Rightarrow>
                                     Inr \<lparr>http_status = 200,
                                          http_body = JObj [(''reply'', JStr reply)]\<rparr>))))"

text \<open>\<open>JSON.stringify\<close> of the request body, as the endpoint parses it back.\<close>

definition entry_json :: "role \<times> string \<Rightarrow> json" where
  "entry_json e = JObj [(''role'', JStr (role_name (fst e))), (''content'', JStr (snd e))]"

definition request_json :: "request \<Rightarrow> json" where
  "request_json req =
     JObj [(''prompt'', JStr (prompt req)), (''history'', JArr (map entry_json (history req)))]"

section \<open>Notions used by the properties\<close>

subsection \<open>The turns appended along a run\<close>

text \<open>
  The turn a call of \<open>handleSend\<close> appends, and the turn an event appends: the user
  turn of a submit that goes through, the assistant turn of a remote call that settles
  with a reply, nothing otherwise.
\<close>

definition send_turn :: "closure \<Rightarrow> string \<Rightarrow> string \<Rightarrow> nat \<Rightarrow> message list" where
  "send_turn c input uid now =
     (if trim input = [] \<or> c_isProcessing c then []
      else [createMessage User (trim input) uid now])"

fun appended :: "event \<Rightarrow> panel \<Rightarrow> message list" where
  "appended (SubmitForm uid now) st =
     send_turn (rendered st) (c_pendingInput (rendered st)) uid now"
| "appended (RecResult ev uid now) st =
     (case recognitionRef st of
        None \<Rightarrow> []
      | Some r \<Rightarrow>
          (case collect (drop (resultIndex ev) (results ev)) ([], []) of
             (finalText, interimText) \<Rightarrow>
               if finalText \<noteq> [] then send_turn r (trim finalText) uid now else []))"
| "appended (Settle i out uid now) st =
     (if i < length (pending st)
      then (case read_reply out of
              Inl err \<Rightarrow> []
            | Inr reply \<Rightarrow> [createMessage Assistant (trim reply) uid now])
      else [])"
| "appended e st = []"

fun appended_log :: "event list \<Rightarrow> panel \<Rightarrow> message list" where
  "appended_log [] st = []"
| "appended_log (e # es) st = appended e st @ appended_log es (step e st)"

text \<open>The buffer and its mirror agree and hold at most \<open>MAX_HISTORY\<close> turns.\<close>

definition buffer_ok :: "panel \<Rightarrow> bool" where
  "buffer_ok st \<longleftrightarrow> messagesRef st = messages st \<and> length (messages st) \<le> MAX_HISTORY"

fun user_turn_with :: "string \<Rightarrow> message \<Rightarrow> bool" where
  "user_turn_with t m \<longleftrightarrow> role m = User \<and> content m = t"

definition count_user_turns :: "string \<Rightarrow> message list \<Rightarrow> nat" where
  "count_user_turns t ms = length (filter (user_turn_with t) ms)"

text \<open>The request of the remote call issued last.\<close>

definition last_request :: "panel \<Rightarrow> request" where
  "last_request st = p_request (last (pending st))"

definition utterance_of :: "string \<Rightarrow> utterance" where
  "utterance_of t = \<lparr>u_text = t, rate_pct = 100, pitch_pct = 105, lang = ''en-US''\<rparr>"

subsection \<open>What the specification says where the code does otherwise\<close>

text \<open>
  The specification's history of a request: the trailing window of at most 12 of the
  turns before the submit, without the user turn just added.
\<close>

definition spec_request_history :: "message list \<Rightarrow> (role \<times> string) list" where
  "spec_request_history prior =
     map (\<lambda>entry. (role entry, content entry)) (slice_last 12 prior)"

text \<open>
  The specification's message assembly: the system instruction, the last at most 12 of
  the valid history entries, and the prompt unless the last of them is that user prompt.
\<close>

definition spec_build_messages :: "string \<Rightarrow> json list \<Rightarrow> (api_role \<times> string) list" where
  "spec_build_messages p rawHistory =
     (let conversation = slice_last 12 (List.map_filter history_entry rawHistory);
          msgs = (System, SYSTEM_PROMPT) # map (\<lambda>(r, c). (Chat r, c)) conversation
      in if conversation \<noteq> [] \<and> last conversation = (User, p) then msgs
         else msgs @ [(Chat User, p)])"

subsection \<open>Concrete inputs\<close>

definition final_result :: "string \<Rightarrow> recognitionEvent" where
  "final_result t = \<lparr>resultIndex = 0, results = [\<lparr>isFinal = True, transcript0 = t\<rparr>]\<rparr>"

definition ok_reply :: "string \<Rightarrow> fetch_outcome" where
  "ok_reply r = Response 200 (Json (JObj [(''reply'', JStr r)]))"

definition server_error :: "nat \<Rightarrow> string \<Rightarrow> fetch_outcome" where
  "server_error st e = Response st (Json (JObj [(''error'', JStr e)]))"

definition browser :: panel where
  "browser = initial True True ''0'' 0"

text \<open>\<open>n\<close> typed questions, each answered before the next is sent.\<close>

fun exchanges :: "nat \<Rightarrow> event list" where
  "exchanges 0 = []"
| "exchanges (Suc n) =
     exchanges n @
     [Typed ''hi'', Commit, SubmitForm ''u'' (2 * n + 1), Commit,
      Settle 0 (ok_reply ''Hello'') ''a'' (2 * n + 2), Commit]"

text \<open>A typed message is sent and rendered as in flight.\<close>

definition sending :: "event list" where
  "sending = [Typed ''hello'', Commit, SubmitForm ''u1'' 1, Commit]"

text \<open>
  The recognition delivers a final transcript and the form is submitted with the same
  text before the next render.
\<close>

definition race_before :: "event list" where
  "race_before =
     [MicClick None, RecStart, Typed ''book a tour'', Commit,
      RecResult (final_result ''book a tour'') ''u1'' 1]"

definition race :: "event list" where
  "race = race_before @ [SubmitForm ''u2'' 2]"

text \<open>
  A typed message is sent and rendered as in flight; then the recognition, started
  earlier, delivers a final transcript.
\<close>

definition overlap_before :: "event list" where
  "overlap_before =
     [MicClick None, RecStart, Typed ''hello'', Commit, SubmitForm ''u1'' 1, Commit]"

definition overlap :: "event list" where
  "overlap = overlap_before @ [RecResult (final_result ''book a tour'') ''u2'' 2]"

text \<open>After that, the remote call of the typed message settles with a reply.\<close>

definition overlap_reply :: "event list" where
  "overlap_reply = overlap @ [Settle 0 (ok_reply ''Hello'') ''a'' 3]"

text \<open>
  After a pointer press a typed message is in flight; the auto-voice switch is turned
  off and the page rendered; then the remote call settles with a reply.
\<close>

definition muted :: "event list" where
  "muted =
     [PointerDown, Typed ''hello'', Commit, SubmitForm ''u1'' 1, Commit, ToggleAutoSpeak,
      Commit]"

definition muted_reply :: "event list" where
  "muted_reply = muted @ [Settle 0 (ok_reply ''Hello'') ''a'' 2]"

text \<open>Thirteen history items: a valid one, a null, and eleven more valid ones.\<close>

definition long_history :: "json list" where
  "long_history =
     entry_json (User, ''first'') # JNull # replicate 11 (entry_json (Assistant, ''ok''))"

text \<open>A short history with items the endpoint drops.\<close>

definition mixed_history :: "json list" where
  "mixed_history =
     [entry_json (User, '' hi ''), JNull, JStr ''x'', entry_json (Assistant, ''  ''),
      JObj [(''role'', JStr ''system''), (''content'', JStr ''no'')],
      entry_json (Assistant, ''yo'')]"

text \<open>An upstream answer without choices, and one with a padded reply.\<close>

definition no_choices :: "(api_role \<times> string) list \<Rightarrow> fetch_outcome" where
  "no_choices msgs = Response 200 (Json (JObj [(''choices'', JArr [])]))"

definition one_choice :: "string \<Rightarrow> (api_role \<times> string) list \<Rightarrow> fetch_outcome" where
  "one_choice r msgs =
     Response 200
       (Json (JObj [(''choices'',
          JArr [JObj [(''message'', JObj [(''role'', JStr ''assistant''),
                                          (''content'', JStr r)])]])]))"

section \<open>Properties\<close>

subsection \<open>Lists and trimming\<close>

lemma slice_last_length: "length (slice_last n xs) \<le> n"
  by (simp add: slice_last_def)

lemma slice_last_slice_last_append:
  "slice_last n (slice_last n xs @ ys) = slice_last n (xs @ ys)"
  by (cases "length xs \<le> n") (simp_all add: slice_last_def add.commute)

lemma slice_last_id: "length xs \<le> n \<Longrightarrow> slice_last n xs = xs"
  by (simp add: slice_last_def)

lemma slice_last_snoc_last: "0 < n \<Longrightarrow> last (slice_last n (xs @ [x])) = x"
  by (simp add: slice_last_def)

lemma slice_last_snoc: "slice_last (Suc n) (xs @ [x]) = slice_last n xs @ [x]"
  by (simp add: slice_last_def Suc_diff_le)

lemma map_filter_append:
  "List.map_filter f (xs @ ys) = List.map_filter f xs @ List.map_filter f ys"
  by (simp add: List.map_filter_def)

lemma length_map_filter_le: "length (List.map_filter f xs) \<le> length xs"
  by (induction xs) (simp_all add: List.map_filter_simps split: option.splits)

lemma dropWhile_rev_dropWhile:
  "dropWhile P (rev (dropWhile P (rev (dropWhile P s)))) = rev (dropWhile P (rev (dropWhile P s)))"
proof (cases "dropWhile P (rev (dropWhile P s)) = []")
  case True
  show ?thesis unfolding True by simp
next
  case False
  define t where "t = dropWhile P s"
  define u where "u = dropWhile P (rev t)"
  have u: "u \<noteq> []" using False by (simp add: u_def t_def)
  then have t: "t \<noteq> []" by (auto simp: u_def)
  have ht: "\<not> P (hd t)" unfolding t_def using t hd_dropWhile t_def by blast
  have "hd t \<in> set (rev t)" using t by simp
  then have "last u = last (rev t)" unfolding u_def using ht by (rule dropWhile_last)
  then have "last u = hd t" using t by (simp add: last_rev)
  then have "\<not> P (hd (rev u))" using ht u by (simp add: hd_rev)
  then have "dropWhile P (rev u) = rev u" using u by (cases "rev u") auto
  then show ?thesis by (simp add: u_def t_def)
qed

lemma trim_idem: "trim (trim s) = trim s"
  unfolding trim_def by (simp add: dropWhile_rev_dropWhile)

lemma trim_Nil [simp]: "trim [] = []"
  by (simp add: trim_def)



subsection \<open>Submitting\<close>

lemma handleSend_noop:
  "trim input = [] \<or> c_isProcessing c \<Longrightarrow> handleSend c input uid now st = st"
  by (simp add: handleSend_def)

lemma handleSend_goes:
  assumes "trim input \<noteq> []" "\<not> c_isProcessing c"
  shows "messagesRef (handleSend c input uid now st) =
           slice_last MAX_HISTORY (messagesRef st @ [createMessage User (trim input) uid now])"
    and "messages (handleSend c input uid now st) = messagesRef (handleSend c input uid now st)"
    and "pendingInput (handleSend c input uid now st) = []"
    and "transcript (handleSend c input uid now st) = []"
    and "isProcessing (handleSend c input uid now st)"
    and "error (handleSend c input uid now st) = None"
    and "pending (handleSend c input uid now st) =
           pending st @
           [\<lparr>p_closure = c,
             p_request = \<lparr>prompt = trim input,
               history = map (\<lambda>entry. (role entry, content entry))
                 (slice_last MAX_HISTORY
                    (messagesRef st @ [createMessage User (trim input) uid now]))\<rparr>\<rparr>]"
  using assms by (simp_all add: handleSend_def Let_def)

subsection \<open>The history buffer\<close>

lemma handleSend_messages:
  "buffer_ok st \<Longrightarrow>
   messages (handleSend c input uid now st) =
     slice_last MAX_HISTORY (messages st @ send_turn c input uid now) \<and>
   messagesRef (handleSend c input uid now st) = messages (handleSend c input uid now st)"
  by (simp add: handleSend_def send_turn_def Let_def buffer_ok_def slice_last_id)

lemma synthSpeak_messages [simp]:
  "messages (synthSpeak c t st) = messages st" "messagesRef (synthSpeak c t st) = messagesRef st"
  by (simp_all add: synthSpeak_def Let_def)

lemma step_messages:
  "buffer_ok st \<Longrightarrow>
   messages (step e st) = slice_last MAX_HISTORY (messages st @ appended e st) \<and>
   messagesRef (step e st) = messages (step e st)"
proof (cases e)
  case (SubmitForm uid now)
  assume "buffer_ok st"
  then show ?thesis using SubmitForm handleSend_messages[of st] by (simp add: handleSubmit_def)
next
  case (RecResult ev uid now)
  assume b: "buffer_ok st"
  then have b': "buffer_ok (st\<lparr>transcript := []\<rparr>)" by (simp add: buffer_ok_def)
  show ?thesis using RecResult b handleSend_messages[OF b']
    by (auto simp: onresult_def buffer_ok_def slice_last_id split: option.splits prod.splits)
next
  case (Settle i out uid now)
  assume "buffer_ok st"
  then show ?thesis using Settle
    by (auto simp: handleSend_resume_def buffer_ok_def slice_last_id Let_def split: sum.splits)
next
  case (MicClick s)
  assume "buffer_ok st"
  then show ?thesis using MicClick
    by (auto simp: handleToggleRecording_def ensureRecognition_def buffer_ok_def slice_last_id
        split: option.splits prod.splits if_splits)
qed (auto simp: buffer_ok_def slice_last_id onstart_def onerror_def onend_def split: option.splits)

lemma step_buffer_ok: "buffer_ok st \<Longrightarrow> buffer_ok (step e st)"
  using step_messages[of st e] by (simp add: buffer_ok_def slice_last_length)

lemma run_messages:
  "buffer_ok st \<Longrightarrow>
   messages (run es st) = slice_last MAX_HISTORY (messages st @ appended_log es st) \<and>
   buffer_ok (run es st)"
proof (induction es arbitrary: st)
  case Nil
  then show ?case by (simp add: buffer_ok_def slice_last_id)
next
  case (Cons e es)
  have ok: "buffer_ok (step e st)" using Cons.prems by (rule step_buffer_ok)
  have "messages (run (e # es) st) =
        slice_last MAX_HISTORY (messages (step e st) @ appended_log es (step e st))"
    using Cons.IH[OF ok] by simp
  also have "\<dots> = slice_last MAX_HISTORY
       (slice_last MAX_HISTORY (messages st @ appended e st) @ appended_log es (step e st))"
    using step_messages[OF Cons.prems, of e] by simp
  also have "\<dots> = slice_last MAX_HISTORY (messages st @ appended_log (e # es) st)"
    by (simp add: slice_last_slice_last_append)
  finally show ?case using Cons.IH[OF ok] by simp
qed

lemma initial_buffer_ok: "buffer_ok (initial w r uid now)"
  by (simp add: buffer_ok_def initial_def MAX_HISTORY_def Let_def)


lemma appended_log_Nil_messages:
  "buffer_ok st \<Longrightarrow> appended_log es st = [] \<Longrightarrow> messagesRef (run es st) = messages st"
  using run_messages[of st es] by (simp add: buffer_ok_def slice_last_id)

text \<open>
  C1. From the first render on, whatever events occur (submits through the form or the
  recognition, settled remote calls, renders, and the rest), the buffer holds at most 12
  turns, and they are the last 12 of the greeting followed by all turns appended so far,
  in the order they were appended. The mirror \<open>messagesRef\<close> always equals the buffer.
\<close>

theorem history_capped_most_recent:
  "length (messages (run es (initial w r uid now))) \<le> 12 \<and>
   messages (run es (initial w r uid now)) =
     slice_last 12 (createMessage Assistant greeting uid now #
                    appended_log es (initial w r uid now)) \<and>
   messagesRef (run es (initial w r uid now)) = messages (run es (initial w r uid now))"
proof -
  let ?st = "initial w r uid now"
  have ms: "messages ?st = [createMessage Assistant greeting uid now]"
    by (simp add: initial_def Let_def)
  have "messages (run es ?st) = slice_last MAX_HISTORY (messages ?st @ appended_log es ?st)"
    and ok: "buffer_ok (run es ?st)"
    using run_messages[OF initial_buffer_ok, of es w r uid now] by simp_all
  then show ?thesis using ms by (simp add: buffer_ok_def MAX_HISTORY_def)
qed

text \<open>
  Seven questions and seven answers: fourteen turns are appended after the greeting, and
  the buffer keeps the last twelve (the greeting and the first two turns are gone).
\<close>

theorem history_capped_most_recent_witness:
  "length (messages (run (exchanges 7) browser)) \<le> 12 \<and>
   map createdAt (appended_log (exchanges 7) browser) = [1, 2, 3, 4, 5, 6, 7, 8, 9, 10, 11, 12, 13, 14] \<and>
   map createdAt (messages (run (exchanges 7) browser)) = [3, 4, 5, 6, 7, 8, 9, 10, 11, 12, 13, 14]"
proof -
  have a: "length (messages (run (exchanges 7) browser)) \<le> 12"
    using history_capped_most_recent[of "exchanges 7" True True "''0''" 0]
    unfolding browser_def by (rule conjunct1)
  have b: "map createdAt (appended_log (exchanges 7) browser) =
             [1, 2, 3, 4, 5, 6, 7, 8, 9, 10, 11, 12, 13, 14]"
    by code_simp
  have c: "map createdAt (messages (run (exchanges 7) browser)) =
             [3, 4, 5, 6, 7, 8, 9, 10, 11, 12, 13, 14]"
    by code_simp
  show ?thesis using a b c by (intro conjI)
qed

subsection \<open>Speech output\<close>

lemma step_windowDefined [simp]: "windowDefined (step e st) = windowDefined st"
  by (cases e)
    (auto simp: handleSubmit_def handleSend_def handleToggleRecording_def ensureRecognition_def
      onstart_def onerror_def onend_def onresult_def handleSend_resume_def synthSpeak_def Let_def
      split: option.splits prod.splits sum.splits)

lemma run_windowDefined [simp]: "windowDefined (run es st) = windowDefined st"
  by (induction es arbitrary: st) simp_all

lemma step_speechAllowed:
  "speechAllowedRef (step e st) \<Longrightarrow> speechAllowedRef st \<or> windowDefined st"
  by (cases e)
    (auto simp: handleSubmit_def handleSend_def handleToggleRecording_def ensureRecognition_def
      onstart_def onerror_def onend_def onresult_def handleSend_resume_def synthSpeak_def Let_def
      split: option.splits prod.splits sum.splits if_splits)

lemma run_speechAllowed:
  "speechAllowedRef (run es st) \<Longrightarrow> speechAllowedRef st \<or> windowDefined st"
proof (induction es arbitrary: st)
  case Nil
  then show ?case by simp
next
  case (Cons e es)
  from Cons.IH[of "step e st"] Cons.prems
  have "speechAllowedRef (step e st) \<or> windowDefined (step e st)" by simp
  then show ?case using step_speechAllowed[of e st] by auto
qed

text \<open>
  A \<open>synthSpeak\<close> callback leaves everything as it is unless the user has pressed the
  pointer once (\<open>speechAllowedRef\<close>) and the auto-speak flag the callback captured is set. When
  both hold, in any state the panel can reach from its first render, the utterance queue
  afterwards holds exactly the new utterance for the text, whatever was queued or
  playing before: the last call wins and nothing is queued behind another.
\<close>

theorem synthSpeak_gated:
  "(\<not> speechAllowedRef st \<or> \<not> c_autoSpeak c \<longrightarrow> synthSpeak c t st = st) \<and>
   (speechAllowedRef (run es (initial w r uid now)) \<and> c_autoSpeak c \<longrightarrow>
      synthSpeak c t (run es (initial w r uid now)) =
        (run es (initial w r uid now))\<lparr>speechSynthesis := [utterance_of t]\<rparr>)"
proof -
  let ?st = "run es (initial w r uid now)"
  have "\<not> speechAllowedRef (initial w r uid now)" by (simp add: initial_def Let_def)
  then have "speechAllowedRef ?st \<Longrightarrow> windowDefined ?st"
    using run_speechAllowed[of es "initial w r uid now"] by simp
  then show ?thesis
    by (auto simp: synthSpeak_def Let_def cancel_def speak_def utterance_of_def)
qed

text \<open>
  Before any pointer press nothing is spoken; after one, a first and then a second call
  leave only the second utterance.
\<close>

theorem synthSpeak_gated_witness:
  "\<not> speechAllowedRef browser \<and> synthSpeak (rendered browser) ''Hello'' browser = browser \<and>
   speechAllowedRef (run [PointerDown] browser) \<and> c_autoSpeak (rendered browser) \<and>
   synthSpeak (rendered browser) ''first'' (run [PointerDown] browser) =
     (run [PointerDown] browser)\<lparr>speechSynthesis := [utterance_of ''first'']\<rparr> \<and>
   speechSynthesis
     (synthSpeak (rendered browser) ''second''
        (synthSpeak (rendered browser) ''first'' (run [PointerDown] browser))) =
     [utterance_of ''second'']"
proof -
  have h1: "\<not> speechAllowedRef browser" by code_simp
  have h2: "speechAllowedRef (run [PointerDown] browser)" by code_simp
  have h3: "c_autoSpeak (rendered browser)" by code_simp
  have a: "synthSpeak (rendered browser) ''Hello'' browser = browser"
    using synthSpeak_gated[of browser "rendered browser" "''Hello''"] h1 by blast
  have b: "synthSpeak (rendered browser) ''first'' (run [PointerDown] browser) =
     (run [PointerDown] browser)\<lparr>speechSynthesis := [utterance_of ''first'']\<rparr>"
    using synthSpeak_gated[of browser "rendered browser" "''first''" "[PointerDown]"
        True True "''0''" 0] h2 h3
    unfolding browser_def by blast
  have c: "speechSynthesis
     (synthSpeak (rendered browser) ''second''
        (synthSpeak (rendered browser) ''first'' (run [PointerDown] browser))) =
     [utterance_of ''second'']"
    by code_simp
  show ?thesis using h1 h2 h3 a b c by (intro conjI)
qed

text \<open>
  The callbacks of a render are silent when that render's auto-speak flag is off.
\<close>

lemma rendered_synthSpeak_silent:
  "\<not> autoSpeak st \<Longrightarrow> synthSpeak (closure_of st) t st = st"
  by (simp add: synthSpeak_def closure_of_def)

text \<open>
  C9 says that speaking is a no-op unless the user has interacted with the page and the
  auto-speak preference is enabled, and that otherwise the new utterance replaces what
  was playing. The code departs from it for a reply that arrives after the preference
  was switched off: the continuation of \<open>handleSend\<close> calls the \<open>synthSpeak\<close> of the render
  that issued the submit, which still holds the flag as set. Here a message is sent with
  the preference on, the switch is turned off and rendered (the flag and the rendered
  callbacks are off, nothing is queued), and the reply is spoken all the same.
\<close>

theorem muted_reply_is_spoken:
  "speechAllowedRef (run muted browser) \<and>
   autoSpeak (run muted browser) = False \<and>
   c_autoSpeak (rendered (run muted browser)) = False \<and>
   speechSynthesis (run muted browser) = [] \<and>
   c_autoSpeak (p_closure (pending (run muted browser) ! 0)) \<and>
   autoSpeak (run muted_reply browser) = False \<and>
   speechSynthesis (run muted_reply browser) = [utterance_of ''Hello'']"
  by code_simp

subsection \<open>Settling a remote call\<close>

lemma synthSpeak_fields [simp]:
  "isProcessing (synthSpeak c t st) = isProcessing st"
  "pendingInput (synthSpeak c t st) = pendingInput st"
  "transcript (synthSpeak c t st) = transcript st"
  "error (synthSpeak c t st) = error st"
  "pending (synthSpeak c t st) = pending st"
  "autoSpeak (synthSpeak c t st) = autoSpeak st"
  "status (synthSpeak c t st) = status st"
  by (simp_all add: synthSpeak_def Let_def)

lemma synthSpeak_update_commute:
  "speechSynthesis (synthSpeak c t (st\<lparr>messagesRef := a, messages := b\<rparr>)) =
   speechSynthesis (synthSpeak c t st)"
  by (simp add: synthSpeak_def Let_def)

lemma resume_success:
  assumes "read_reply out = Inr reply"
  shows "messagesRef (handleSend_resume c out uid now st) =
           slice_last MAX_HISTORY (messagesRef st @ [createMessage Assistant (trim reply) uid now])"
    and "messages (handleSend_resume c out uid now st) =
           slice_last MAX_HISTORY (messagesRef st @ [createMessage Assistant (trim reply) uid now])"
    and "speechSynthesis (handleSend_resume c out uid now st) =
           speechSynthesis (synthSpeak c (trim reply) st)"
    and "error (handleSend_resume c out uid now st) = error st"
  using assms
  by (simp_all add: handleSend_resume_def Let_def synthSpeak_update_commute createMessage_def)

lemma resume_failure:
  assumes "read_reply out = Inl err"
  shows "handleSend_resume c out uid now st =
           st\<lparr>error := Some (message_or err ''Failed to reach the server.''),
              isProcessing := False\<rparr>"
  using assms by (simp add: handleSend_resume_def Let_def)

lemma resume_fields [simp]:
  "isProcessing (handleSend_resume c out uid now st) = False"
  "pendingInput (handleSend_resume c out uid now st) = pendingInput st"
  "transcript (handleSend_resume c out uid now st) = transcript st"
  "pending (handleSend_resume c out uid now st) = pending st"
  "autoSpeak (handleSend_resume c out uid now st) = autoSpeak st"
  "status (handleSend_resume c out uid now st) = status st"
  by (simp_all add: handleSend_resume_def Let_def split: sum.splits)

lemma read_reply_ok:
  "response_ok s \<Longrightarrow> get_prop data ''reply'' = Some (JStr r) \<Longrightarrow>
   read_reply (Response s (Json data)) = Inr r"
  by (cases data) (auto simp: read_reply_def)

text \<open>
  When the remote call ends with an ok status and a body whose \<open>reply\<close> is the string
  \<open>r\<close>, the continuation appends one assistant turn with content \<open>trim r\<close> to the
  buffer and applies the cap, so that at most 12 turns remain, hands \<open>trim r\<close> to
  \<open>synthSpeak\<close>, and clears the in-flight flag. When no other turn was appended since
  the submit, the buffer then is the capped old buffer followed by the user turn and,
  right after it, the assistant turn.
\<close>

theorem reply_appended_after_user_turn:
  assumes "response_ok s" and "get_prop data ''reply'' = Some (JStr r)"
  shows "messages (handleSend_resume c (Response s (Json data)) uid now st) =
           slice_last 12 (messagesRef st @ [createMessage Assistant (trim r) uid now]) \<and>
         messagesRef (handleSend_resume c (Response s (Json data)) uid now st) =
           messages (handleSend_resume c (Response s (Json data)) uid now st) \<and>
         length (messages (handleSend_resume c (Response s (Json data)) uid now st)) \<le> 12 \<and>
         last (messages (handleSend_resume c (Response s (Json data)) uid now st)) =
           createMessage Assistant (trim r) uid now \<and>
         speechSynthesis (handleSend_resume c (Response s (Json data)) uid now st) =
           speechSynthesis (synthSpeak c (trim r) st) \<and>
         isProcessing (handleSend_resume c (Response s (Json data)) uid now st) = False \<and>
         (buffer_ok st0 \<and> trim input \<noteq> [] \<and> \<not> c_isProcessing c \<and>
          appended_log mid (handleSend c input uid0 now0 st0) = [] \<longrightarrow>
            messages (handleSend_resume c (Response s (Json data)) uid now
                        (run mid (handleSend c input uid0 now0 st0))) =
              slice_last 12 (messages st0 @
                [createMessage User (trim input) uid0 now0,
                 createMessage Assistant (trim r) uid now]))"
proof -
  let ?out = "Response s (Json data)"
  have rr: "read_reply ?out = Inr r" using assms by (rule read_reply_ok)
  note R = resume_success[OF rr]
  have last_part: "messages (handleSend_resume c ?out uid now
                        (run mid (handleSend c input uid0 now0 st0))) =
              slice_last 12 (messages st0 @
                [createMessage User (trim input) uid0 now0,
                 createMessage Assistant (trim r) uid now])"
    if ok: "buffer_ok st0" and t: "trim input \<noteq> []" and p: "\<not> c_isProcessing c"
      and quiet: "appended_log mid (handleSend c input uid0 now0 st0) = []"
  proof -
    let ?st1 = "handleSend c input uid0 now0 st0"
    have m1: "messages ?st1 =
        slice_last MAX_HISTORY (messages st0 @ [createMessage User (trim input) uid0 now0])"
      and ok1: "buffer_ok ?st1"
      using handleSend_goes(1,2)[OF t p, of uid0 now0 st0] ok
      by (simp_all add: buffer_ok_def slice_last_length)
    have "messagesRef (run mid ?st1) = messages ?st1"
      using ok1 quiet by (rule appended_log_Nil_messages)
    then show ?thesis
      using R(2)[of c uid now "run mid ?st1"] m1
      by (simp add: slice_last_slice_last_append MAX_HISTORY_def)
  qed
  show ?thesis
    using R[of c uid now st] last_part
    by (simp add: MAX_HISTORY_def slice_last_length slice_last_snoc_last)
qed

text \<open>
  A typed \<open>hi\<close> is answered with \<open>Hello\<close> (both padded with blanks); a render and a
  pointer press fall between the submit and the answer.
\<close>

theorem reply_appended_after_user_turn_witness:
  "response_ok 200 \<and>
   get_prop (JObj [(''reply'', JStr '' Hello '')]) ''reply'' = Some (JStr '' Hello '') \<and>
   buffer_ok browser \<and> trim '' hi '' \<noteq> [] \<and> \<not> c_isProcessing (rendered browser) \<and>
   appended_log [Commit, PointerDown]
     (handleSend (rendered browser) '' hi '' ''u'' 1 browser) = [] \<and>
   messages (handleSend_resume (rendered browser)
               (Response 200 (Json (JObj [(''reply'', JStr '' Hello '')]))) ''a'' 2
               (run [Commit, PointerDown]
                  (handleSend (rendered browser) '' hi '' ''u'' 1 browser))) =
     slice_last 12 (messages browser @
       [createMessage User (trim '' hi '') ''u'' 1,
        createMessage Assistant (trim '' Hello '') ''a'' 2]) \<and>
   map content (messages (handleSend_resume (rendered browser)
               (Response 200 (Json (JObj [(''reply'', JStr '' Hello '')]))) ''a'' 2
               (run [Commit, PointerDown]
                  (handleSend (rendered browser) '' hi '' ''u'' 1 browser)))) =
     [greeting, ''hi'', ''Hello''] \<and>
   map u_text (speechSynthesis (handleSend_resume (rendered browser)
               (Response 200 (Json (JObj [(''reply'', JStr '' Hello '')]))) ''a'' 2
               (run [Commit, PointerDown]
                  (handleSend (rendered browser) '' hi '' ''u'' 1 browser)))) =
     [''Hello'']"
proof -
  have h1: "response_ok 200" by (simp add: response_ok_def)
  have h2: "get_prop (JObj [(''reply'', JStr '' Hello '')]) ''reply'' = Some (JStr '' Hello '')"
    by simp
  have h3: "buffer_ok browser" by code_simp
  have h4: "trim '' hi '' \<noteq> []" by code_simp
  have h5: "\<not> c_isProcessing (rendered browser)" by code_simp
  have h6: "appended_log [Commit, PointerDown]
              (handleSend (rendered browser) '' hi '' ''u'' 1 browser) = []"
    by code_simp
  have c: "messages (handleSend_resume (rendered browser)
               (Response 200 (Json (JObj [(''reply'', JStr '' Hello '')]))) ''a'' 2
               (run [Commit, PointerDown]
                  (handleSend (rendered browser) '' hi '' ''u'' 1 browser))) =
     slice_last 12 (messages browser @
       [createMessage User (trim '' hi '') ''u'' 1,
        createMessage Assistant (trim '' Hello '') ''a'' 2])"
    using reply_appended_after_user_turn[OF h1 h2] h3 h4 h5 h6 by blast
  have d: "map content (messages (handleSend_resume (rendered browser)
               (Response 200 (Json (JObj [(''reply'', JStr '' Hello '')]))) ''a'' 2
               (run [Commit, PointerDown]
                  (handleSend (rendered browser) '' hi '' ''u'' 1 browser)))) =
     [greeting, ''hi'', ''Hello'']"
    by code_simp
  have e: "map u_text (speechSynthesis (handleSend_resume (rendered browser)
               (Response 200 (Json (JObj [(''reply'', JStr '' Hello '')]))) ''a'' 2
               (run [Commit, PointerDown]
                  (handleSend (rendered browser) '' hi '' ''u'' 1 browser)))) =
     [''Hello'']"
    by code_simp
  show ?thesis using h1 h2 h3 h4 h5 h6 c d e by (intro conjI)
qed

text \<open>
  C5 says that a reply \<open>{reply: r}\<close> appends exactly one assistant turn with content
  \<open>trim r\<close> immediately after the triggering user turn, with the cap applied again,
  hands the reply to the speech adapter and clears the in-flight flag. The code departs
  from it when submits overlap, which the guard of \<open>handleSend\<close> is there to exclude
  and misses on the recognition path: the continuation appends to the buffer as it
  stands when the reply arrives. Here \<open>hello\<close> is in flight, the recognition appends
  \<open>book a tour\<close>, and the reply to \<open>hello\<close> lands after \<open>book a tour\<close>.
\<close>

theorem overlapped_reply_not_adjacent:
  "prompt (p_request (pending (run overlap browser) ! 0)) = ''hello'' \<and>
   map content (messages (run overlap browser)) = [greeting, ''hello'', ''book a tour''] \<and>
   map content (messages (run overlap_reply browser)) =
     [greeting, ''hello'', ''book a tour'', ''Hello''] \<and>
   map role (messages (run overlap_reply browser)) = [Assistant, User, User, Assistant]"
  by code_simp

text \<open>
  C10. However the remote call ends, the continuation sets \<open>isProcessing\<close> to false and
  leaves \<open>pendingInput\<close> and \<open>transcript\<close> as they are, so what the submit cleared stays
  cleared. After the next render, a submit with non-empty trimmed input through the
  rendered handlers goes through: it appends its user turn and issues a remote call.
\<close>

theorem in_flight_always_cleared:
  "isProcessing (handleSend_resume c out uid now st) = False \<and>
   pendingInput (handleSend_resume c out uid now st) = pendingInput st \<and>
   transcript (handleSend_resume c out uid now st) = transcript st \<and>
   (i < length (pending st) \<longrightarrow>
      isProcessing (step (Settle i out uid now) st) = False \<and>
      pendingInput (step (Settle i out uid now) st) = pendingInput st \<and>
      transcript (step (Settle i out uid now) st) = transcript st) \<and>
   (trim input \<noteq> [] \<and> \<not> c_isProcessing c \<longrightarrow>
      isProcessing (handleSend c input uid0 now0 st) \<and>
      pendingInput (handleSend_resume c out uid now (handleSend c input uid0 now0 st)) = [] \<and>
      transcript (handleSend_resume c out uid now (handleSend c input uid0 now0 st)) = []) \<and>
   (trim next_input \<noteq> [] \<longrightarrow>
      length (pending (handleSend (rendered (step Commit (handleSend_resume c out uid now st)))
                         next_input uid1 now1 (step Commit (handleSend_resume c out uid now st)))) =
        Suc (length (pending st)) \<and>
      last (messages (handleSend (rendered (step Commit (handleSend_resume c out uid now st)))
                         next_input uid1 now1 (step Commit (handleSend_resume c out uid now st)))) =
        createMessage User (trim next_input) uid1 now1)"
proof -
  let ?st2 = "step Commit (handleSend_resume c out uid now st)"
  have np: "\<not> c_isProcessing (rendered ?st2)" by (simp add: closure_of_def)
  have p2: "pending ?st2 = pending st" by simp
  have accept: "length (pending (handleSend (rendered ?st2) next_input uid1 now1 ?st2)) =
        Suc (length (pending st)) \<and>
      last (messages (handleSend (rendered ?st2) next_input uid1 now1 ?st2)) =
        createMessage User (trim next_input) uid1 now1"
    if t: "trim next_input \<noteq> []"
    using handleSend_goes(1,2,7)[OF t np, of uid1 now1 ?st2] p2
    by (simp add: slice_last_snoc_last MAX_HISTORY_def)
  have start: "isProcessing (handleSend c input uid0 now0 st) \<and>
      pendingInput (handleSend_resume c out uid now (handleSend c input uid0 now0 st)) = [] \<and>
      transcript (handleSend_resume c out uid now (handleSend c input uid0 now0 st)) = []"
    if t: "trim input \<noteq> []" and p: "\<not> c_isProcessing c"
    using handleSend_goes(3,4,5)[OF t p, of uid0 now0 st] by simp
  show ?thesis using accept start by simp
qed

text \<open>A typed message is in flight and the network fails.\<close>

theorem in_flight_always_cleared_witness:
  "0 < length (pending (run sending browser)) \<and>
   isProcessing (run sending browser) \<and>
   isProcessing (step (Settle 0 (Rejected NonError) ''a'' 2) (run sending browser)) = False \<and>
   pendingInput (step (Settle 0 (Rejected NonError) ''a'' 2) (run sending browser)) =
     pendingInput (run sending browser) \<and>
   pendingInput (run sending browser) = [] \<and>
   error (step (Settle 0 (Rejected NonError) ''a'' 2) (run sending browser)) =
     Some ''Failed to reach the server.''"
proof -
  have h: "0 < length (pending (run sending browser))" by code_simp
  have a: "isProcessing (run sending browser)" by code_simp
  have b: "isProcessing (step (Settle 0 (Rejected NonError) ''a'' 2) (run sending browser)) =
             False"
    and c: "pendingInput (step (Settle 0 (Rejected NonError) ''a'' 2) (run sending browser)) =
              pendingInput (run sending browser)"
    using in_flight_always_cleared[of _ "Rejected NonError" "''a''" 2 "run sending browser" 0] h
    by blast+
  have d: "pendingInput (run sending browser) = []" by code_simp
  have e: "error (step (Settle 0 (Rejected NonError) ''a'' 2) (run sending browser)) =
     Some ''Failed to reach the server.''" by code_simp
  show ?thesis using h a b c d e by (intro conjI)
qed

subsection \<open>A remote call that fails\<close>

lemma failure_message_error:
  "e \<noteq> [] \<Longrightarrow> failure_message s (Json (JObj [(''error'', JStr e)])) = Inr e"
  by (simp add: failure_message_def)

lemma failure_message_empty:
  "failure_message s (Json (JObj [(''error'', JStr [])])) =
     Inr (''Request failed ('' @ show_nat s @ '')'')"
  by (simp add: failure_message_def)

lemma read_reply_not_ok: "\<not> response_ok s \<Longrightarrow> isl (read_reply (Response s b))"
  by (simp add: read_reply_def split: sum.splits)

text \<open>
  C4 (as amended). When the remote call fails, that is, the \<open>try\<close> block throws, as it
  does for every response that is not ok and for every rejected \<open>fetch\<close>, the
  continuation only records the error message and clears the in-flight flag: the buffer
  is untouched, so it still ends with the user turn of the submit, and no assistant turn
  is appended. For a response that is not ok with body \<open>{error: e}\<close> the recorded
  message is \<open>e\<close> when \<open>e\<close> is not empty, and \<open>Request failed (status)\<close> when it is.
\<close>

theorem failure_keeps_user_turn:
  "(read_reply out = Inl err \<longrightarrow>
      handleSend_resume c out uid now st =
        st\<lparr>error := Some (message_or err ''Failed to reach the server.''),
           isProcessing := False\<rparr>) \<and>
   (\<not> response_ok s \<longrightarrow> isl (read_reply (Response s b))) \<and>
   isl (read_reply (Rejected x)) \<and>
   (\<not> response_ok s \<and> e \<noteq> [] \<longrightarrow>
      handleSend_resume c (server_error s e) uid now st =
        st\<lparr>error := Some e, isProcessing := False\<rparr>) \<and>
   (\<not> response_ok s \<longrightarrow>
      handleSend_resume c (server_error s []) uid now st =
        st\<lparr>error := Some (''Request failed ('' @ show_nat s @ '')''),
           isProcessing := False\<rparr>) \<and>
   (trim input \<noteq> [] \<and> \<not> c_isProcessing c \<and> read_reply out = Inl err \<longrightarrow>
      last (messages (handleSend_resume c out uid now (handleSend c input uid0 now0 st))) =
        createMessage User (trim input) uid0 now0)"
proof -
  have a: "handleSend_resume c (server_error s e) uid now st =
        st\<lparr>error := Some e, isProcessing := False\<rparr>" if "\<not> response_ok s" "e \<noteq> []"
  proof -
    have "read_reply (server_error s e) = Inl (ErrorObj e)"
      using that by (simp add: read_reply_def server_error_def failure_message_error)
    from resume_failure[OF this] show ?thesis by simp
  qed
  have b: "handleSend_resume c (server_error s []) uid now st =
        st\<lparr>error := Some (''Request failed ('' @ show_nat s @ '')''),
           isProcessing := False\<rparr>"
    if "\<not> response_ok s"
  proof -
    have "read_reply (server_error s []) =
            Inl (ErrorObj (''Request failed ('' @ show_nat s @ '')''))"
      using that by (simp add: read_reply_def server_error_def failure_message_empty)
    from resume_failure[OF this] show ?thesis by simp
  qed
  have d: "last (messages (handleSend_resume c out uid now (handleSend c input uid0 now0 st))) =
        createMessage User (trim input) uid0 now0"
    if t: "trim input \<noteq> []" and p: "\<not> c_isProcessing c" and f: "read_reply out = Inl err"
    using handleSend_goes(1,2)[OF t p, of uid0 now0 st] resume_failure[OF f]
    by (simp add: slice_last_snoc_last MAX_HISTORY_def)
  have r: "isl (read_reply (Rejected x))" by (simp add: read_reply_def)
  show ?thesis using a b d r resume_failure read_reply_not_ok by blast
qed

text \<open>The typed message \<open>hello\<close> is in flight and the server answers 500 with \<open>boom\<close>.\<close>

theorem failure_keeps_user_turn_witness:
  "\<not> response_ok 500 \<and> ''boom'' \<noteq> [] \<and>
   handleSend_resume (rendered browser) (server_error 500 ''boom'') ''a'' 2
       (run sending browser) =
     (run sending browser)\<lparr>error := Some ''boom'', isProcessing := False\<rparr> \<and>
   map content (messages (run sending browser)) = [greeting, ''hello''] \<and>
   map content (messages (step (Settle 0 (server_error 500 ''boom'') ''a'' 2)
                            (run sending browser))) = [greeting, ''hello''] \<and>
   error (step (Settle 0 (server_error 500 ''boom'') ''a'' 2) (run sending browser)) =
     Some ''boom''"
proof -
  have h1: "\<not> response_ok 500" by (simp add: response_ok_def)
  have h2: "''boom'' \<noteq> []" by simp
  have a: "handleSend_resume (rendered browser) (server_error 500 ''boom'') ''a'' 2
             (run sending browser) =
           (run sending browser)\<lparr>error := Some ''boom'', isProcessing := False\<rparr>"
    using failure_keeps_user_turn[of _ _ "rendered browser" "''a''" 2 "run sending browser"
        500 _ _ "''boom''"] h1 h2
    by blast
  have b: "map content (messages (run sending browser)) = [greeting, ''hello'']" by code_simp
  have c: "map content (messages (step (Settle 0 (server_error 500 ''boom'') ''a'' 2)
                            (run sending browser))) = [greeting, ''hello'']" by code_simp
  have d: "error (step (Settle 0 (server_error 500 ''boom'') ''a'' 2) (run sending browser)) =
             Some ''boom''" by code_simp
  show ?thesis using h1 h2 a b c d by (intro conjI)
qed

text \<open>
  The claim as first stated fails for the empty error string: the server answers 500
  with \<open>{error: ""}\<close> and the recorded message is not that string.
\<close>

theorem empty_error_string_replaced:
  "error (step (Settle 0 (server_error 500 []) ''a'' 2) (run sending browser)) \<noteq> Some []"
  by code_simp

lemma empty_error_string_message:
  "error (step (Settle 0 (server_error 500 []) ''a'' 2) (run sending browser)) =
     Some ''Request failed (500)''"
  by code_simp

subsection \<open>The request and the endpoint's message list\<close>

lemma push_valid_eq: "push_valid xs acc = acc @ List.map_filter history_entry xs"
  by (induction xs arbitrary: acc) (simp_all add: List.map_filter_simps split: option.splits)

lemma history_entry_entry_json:
  "history_entry (entry_json (r, c)) = (if trim c \<noteq> [] then Some (r, trim c) else None)"
  by (cases r) (simp_all add: history_entry_def entry_json_def)

lemma build_messages_eq:
  "build_messages p raw =
     (System, SYSTEM_PROMPT) #
     map (\<lambda>(r, c). (Chat r, c)) (List.map_filter history_entry (slice_last 12 raw)) @
     (if List.map_filter history_entry (slice_last 12 raw) \<noteq> [] \<and>
         last (List.map_filter history_entry (slice_last 12 raw)) = (User, p)
      then [] else [(Chat User, p)])"
  by (auto simp: build_messages_def push_valid_eq Let_def prod_eq_iff)

lemma build_messages_client:
  assumes p: "trim p = p" "p \<noteq> []" and len: "length ys < 12"
  shows "build_messages p (map entry_json (ys @ [(User, p)])) =
           (System, SYSTEM_PROMPT) #
           map (\<lambda>(r, c). (Chat r, c)) (List.map_filter history_entry (map entry_json ys)) @
           [(Chat User, p)]"
proof -
  let ?raw = "map entry_json (ys @ [(User, p)])"
  have s: "slice_last 12 ?raw = ?raw" using len by (simp add: slice_last_def)
  have "List.map_filter history_entry ?raw =
          List.map_filter history_entry (map entry_json ys) @ [(User, p)]"
    using p by (simp add: map_filter_append List.map_filter_simps history_entry_entry_json)
  then show ?thesis unfolding build_messages_eq s by simp
qed

lemma request_json_read:
  "read_prompt (request_json req) = trim (prompt req)"
  "read_history (request_json req) = map entry_json (history req)"
  by (simp_all add: request_json_def read_prompt_def read_history_def)

text \<open>
  A submit that goes through leaves as last entry of the buffer a user turn whose
  content is exactly the prompt of the request it issues, the trimmed input.
  The check against a doubled prompt is the endpoint's, on the message list it builds
  from that request: the history already ends with the user prompt, so the prompt is not
  appended again and is the last message sent upstream.
\<close>

theorem user_turn_matches_prompt:
  assumes "trim input \<noteq> []" and "\<not> c_isProcessing c"
  shows "last (messagesRef (handleSend c input uid now st)) =
           createMessage User (prompt (last_request (handleSend c input uid now st))) uid now \<and>
         messages (handleSend c input uid now st) = messagesRef (handleSend c input uid now st) \<and>
         prompt (last_request (handleSend c input uid now st)) = trim input \<and>
         length (pending (handleSend c input uid now st)) = Suc (length (pending st)) \<and>
         build_messages (read_prompt (request_json (last_request (handleSend c input uid now st))))
             (read_history (request_json (last_request (handleSend c input uid now st)))) =
           (System, SYSTEM_PROMPT) #
           map (\<lambda>(r, c). (Chat r, c))
             (List.map_filter history_entry
                (map entry_json (history (last_request (handleSend c input uid now st))))) \<and>
         last (build_messages (read_prompt (request_json (last_request (handleSend c input uid now st))))
             (read_history (request_json (last_request (handleSend c input uid now st))))) =
           (Chat User, trim input)"
proof -
  let ?st' = "handleSend c input uid now st"
  let ?p = "trim input"
  let ?u = "createMessage User ?p uid now"
  let ?pair = "\<lambda>entry. (role entry, content entry)"
  note G = handleSend_goes[OF assms, of uid now st]
  have req: "last_request ?st' =
      \<lparr>prompt = ?p, history = map ?pair (slice_last MAX_HISTORY (messagesRef st @ [?u]))\<rparr>"
    using G(7) by (simp add: last_request_def)
  have win: "slice_last MAX_HISTORY (messagesRef st @ [?u]) =
               slice_last 11 (messagesRef st) @ [?u]"
    using slice_last_snoc[of 11 "messagesRef st" ?u] by (simp add: MAX_HISTORY_def)
  have hist: "history (last_request ?st') =
                map ?pair (slice_last 11 (messagesRef st)) @ [(User, ?p)]"
    using req win by (simp add: createMessage_def)
  have len: "length (map ?pair (slice_last 11 (messagesRef st))) < 12"
    using slice_last_length[of 11 "messagesRef st"] by simp
  have tp: "trim ?p = ?p" by (rule trim_idem)
  have bm: "build_messages ?p (map entry_json (history (last_request ?st'))) =
           (System, SYSTEM_PROMPT) #
           map (\<lambda>(r, c). (Chat r, c))
             (List.map_filter history_entry
               (map entry_json (map ?pair (slice_last 11 (messagesRef st))))) @
           [(Chat User, ?p)]"
    unfolding hist using build_messages_client[OF tp assms(1) len] by simp
  have mf: "List.map_filter history_entry (map entry_json (history (last_request ?st'))) =
            List.map_filter history_entry
               (map entry_json (map ?pair (slice_last 11 (messagesRef st)))) @ [(User, ?p)]"
    unfolding hist using tp assms(1)
    by (simp add: map_filter_append List.map_filter_simps history_entry_entry_json)
  have pr: "prompt (last_request ?st') = ?p" using req by simp
  have l: "last (messagesRef ?st') = ?u" using G(1) win by simp
  show ?thesis
    using l G(2) pr G(7) bm mf tp by (simp add: request_json_read)
qed

text \<open>The blank-padded \<open>book a tour\<close> is submitted from the first render.\<close>

theorem user_turn_matches_prompt_witness:
  "trim '' book a tour '' \<noteq> [] \<and> \<not> c_isProcessing (rendered browser) \<and>
   last (messagesRef (handleSend (rendered browser) '' book a tour '' ''u1'' 1 browser)) =
     createMessage User
       (prompt (last_request (handleSend (rendered browser) '' book a tour '' ''u1'' 1 browser)))
       ''u1'' 1 \<and>
   prompt (last_request (handleSend (rendered browser) '' book a tour '' ''u1'' 1 browser)) =
     ''book a tour'' \<and>
   map snd (build_messages
      (read_prompt (request_json (last_request
         (handleSend (rendered browser) '' book a tour '' ''u1'' 1 browser))))
      (read_history (request_json (last_request
         (handleSend (rendered browser) '' book a tour '' ''u1'' 1 browser))))) =
     [SYSTEM_PROMPT, greeting, ''book a tour'']"
proof -
  have h1: "trim '' book a tour '' \<noteq> []" by code_simp
  have h2: "\<not> c_isProcessing (rendered browser)" by code_simp
  have a: "last (messagesRef (handleSend (rendered browser) '' book a tour '' ''u1'' 1 browser)) =
     createMessage User
       (prompt (last_request (handleSend (rendered browser) '' book a tour '' ''u1'' 1 browser)))
       ''u1'' 1"
    using user_turn_matches_prompt[OF h1 h2] by (rule conjunct1)
  have b: "prompt (last_request
             (handleSend (rendered browser) '' book a tour '' ''u1'' 1 browser)) =
           ''book a tour''"
    by code_simp
  have c: "map snd (build_messages
      (read_prompt (request_json (last_request
         (handleSend (rendered browser) '' book a tour '' ''u1'' 1 browser))))
      (read_history (request_json (last_request
         (handleSend (rendered browser) '' book a tour '' ''u1'' 1 browser))))) =
     [SYSTEM_PROMPT, greeting, ''book a tour'']"
    by code_simp
  show ?thesis using h1 h2 a b c by (intro conjI)
qed

text \<open>
  C2 says that when a final recognition result and, in the same tick, the form submit
  the same text, only one user turn with that text is appended. The code departs from
  it: the guard of \<open>handleSend\<close> reads the \<open>isProcessing\<close> its render captured. Here the
  recognition delivers \<open>book a tour\<close>, which appends the turn, issues the call and sets
  the flag; before the next render the form is submitted with the same text, its
  handler still holds the flag as false, and a second user turn and a second remote call
  follow. Once the flag is rendered, the same submit changes nothing.
\<close>

theorem same_tick_submit_appends_twice:
  "length (pending (run race_before browser)) = 1 \<and>
   isProcessing (run race_before browser) \<and>
   c_isProcessing (rendered (run race_before browser)) = False \<and>
   count_user_turns ''book a tour'' (messages (run race_before browser)) = 1 \<and>
   count_user_turns ''book a tour'' (messages (run race browser)) = 2 \<and>
   length (pending (run race browser)) = 2 \<and>
   count_user_turns ''book a tour''
     (messages (handleSend (rendered (step Commit (run race_before browser)))
                  ''book a tour'' ''u2'' 2 (step Commit (run race_before browser)))) = 1"
  by code_simp

text \<open>
  C6 (as amended). The history of the request is the role and content of the buffer as
  the submit leaves it: the trailing window of at most 12 of the turns before, followed
  by the user turn just added, which is its last entry; the prompt is the trimmed input.
\<close>

theorem request_history_includes_user_turn:
  assumes "trim input \<noteq> []" and "\<not> c_isProcessing c"
  shows "prompt (last_request (handleSend c input uid now st)) = trim input \<and>
         history (last_request (handleSend c input uid now st)) =
           map (\<lambda>entry. (role entry, content entry)) (messages (handleSend c input uid now st)) \<and>
         history (last_request (handleSend c input uid now st)) =
           slice_last 12 (map (\<lambda>entry. (role entry, content entry)) (messagesRef st) @
                          [(User, trim input)]) \<and>
         length (history (last_request (handleSend c input uid now st))) \<le> 12 \<and>
         last (history (last_request (handleSend c input uid now st))) = (User, trim input)"
proof -
  let ?st' = "handleSend c input uid now st"
  let ?u = "createMessage User (trim input) uid now"
  let ?pair = "\<lambda>entry. (role entry, content entry)"
  note G = handleSend_goes[OF assms, of uid now st]
  have req: "last_request ?st' =
      \<lparr>prompt = trim input,
       history = map ?pair (slice_last MAX_HISTORY (messagesRef st @ [?u]))\<rparr>"
    using G(7) by (simp add: last_request_def)
  have m: "map ?pair (slice_last MAX_HISTORY (messagesRef st @ [?u])) =
           slice_last 12 (map ?pair (messagesRef st) @ [(User, trim input)])"
    by (simp add: slice_last_def MAX_HISTORY_def drop_map createMessage_def)
  have l: "last (slice_last 12 (map ?pair (messagesRef st) @ [(User, trim input)])) =
             (User, trim input)"
    by (simp add: slice_last_snoc_last)
  show ?thesis
    using req G(1,2) m l slice_last_length[of 12 "map ?pair (messagesRef st) @ [(User, trim input)]"]
    by simp
qed

theorem request_history_includes_user_turn_witness:
  "trim ''hello'' \<noteq> [] \<and> \<not> c_isProcessing (rendered browser) \<and>
   last (history (last_request (handleSend (rendered browser) ''hello'' ''u1'' 1 browser))) =
     (User, trim ''hello'') \<and>
   history (last_request (handleSend (rendered browser) ''hello'' ''u1'' 1 browser)) =
     [(Assistant, greeting), (User, ''hello'')]"
proof -
  have h1: "trim ''hello'' \<noteq> []" by code_simp
  have h2: "\<not> c_isProcessing (rendered browser)" by code_simp
  have a: "last (history (last_request (handleSend (rendered browser) ''hello'' ''u1'' 1 browser))) =
     (User, trim ''hello'')"
    using request_history_includes_user_turn[OF h1 h2] by blast
  have b: "history (last_request (handleSend (rendered browser) ''hello'' ''u1'' 1 browser)) =
     [(Assistant, greeting), (User, ''hello'')]"
    by code_simp
  show ?thesis using h1 h2 a b by (intro conjI)
qed

text \<open>
  The claim as first stated fails: the history sent with the first \<open>hello\<close> is not the
  window of the turns before the submit; it also holds the user turn just added.
\<close>

theorem request_history_not_prior_window:
  "history (last_request (handleSend (rendered browser) ''hello'' ''u1'' 1 browser)) \<noteq>
   spec_request_history (messagesRef browser)"
  by code_simp

subsection \<open>A submit while a call is in flight\<close>

text \<open>
  A call whose trimmed input is empty, or whose handlers were rendered while a call was
  in flight, changes nothing (\<open>handleSend_noop\<close>). In particular the form, once the
  in-flight state is rendered, submits nothing.
\<close>

lemma rendered_in_flight_noop:
  "isProcessing st \<Longrightarrow> step (SubmitForm uid now) (step Commit st) = step Commit st"
  by (simp add: handleSubmit_def handleSend_def closure_of_def)

text \<open>
  A final transcript, delivered to a recognition object created by a render in which
  nothing was in flight, always issues a remote call, whatever is pending by then.
\<close>

lemma stale_handler_goes:
  assumes "recognitionRef st = Some r" and "\<not> c_isProcessing r" and "trim t \<noteq> []"
  shows "length (pending (step (RecResult (final_result t) uid now) st)) =
           Suc (length (pending st))"
proof -
  have t: "t \<noteq> []" using assms(3) by auto
  have tt: "trim (trim t) \<noteq> []" using assms(3) by (simp add: trim_idem)
  show ?thesis
    using assms(1) t handleSend_goes(7)[OF tt assms(2), of uid now "st\<lparr>transcript := []\<rparr>"]
    by (simp add: onresult_def final_result_def)
qed

text \<open>
  C3 says that a submit whose trimmed input is empty, or that is issued while a call is
  in flight, changes nothing. The code departs from it on the recognition path: the
  recognition object keeps the \<open>handleSend\<close> of the render that created it. Here it was
  created before anything was sent; a typed message is then in flight (one pending call,
  \<open>isProcessing\<close> set and rendered), and a final transcript arrives: the call is not
  ignored, a second user turn is appended and a second remote call is issued.
\<close>

theorem stale_recognition_submit_overlaps:
  "length (pending (run overlap_before browser)) = 1 \<and>
   isProcessing (run overlap_before browser) \<and>
   c_isProcessing (rendered (run overlap_before browser)) \<and>
   map content (messages (run overlap_before browser)) = [greeting, ''hello''] \<and>
   length (pending (run overlap browser)) = 2 \<and>
   map content (messages (run overlap browser)) = [greeting, ''hello'', ''book a tour'']"
  by code_simp

subsection \<open>The endpoint\<close>

lemma role_of_Some:
  "role_of v = Some r \<longleftrightarrow> v = Some (JStr (role_name r))"
  by (cases "(v)" rule: role_of.cases) (cases r; auto)+

lemma role_name_inject [simp]: "role_name x = role_name y \<longleftrightarrow> x = y"
  by (cases x; cases y) simp_all

lemma role_of_role_name [simp]: "role_of (Some (JStr (role_name r))) = Some r"
  by (cases r) simp_all

lemma history_entry_Some:
  "history_entry item = Some (r, c) \<longleftrightarrow>
     (\<exists>c0. get_prop item ''role'' = Some (JStr (role_name r)) \<and>
           get_prop item ''content'' = Some (JStr c0) \<and> trim c0 \<noteq> [] \<and> c = trim c0)"
proof (cases item)
  case (JObj kvs)
  show ?thesis
    unfolding history_entry_def JObj
    by (auto simp: role_of_Some simp del: role_of.simps split: option.splits json.splits)
qed (simp_all add: history_entry_def)

lemma build_messages_short:
  "length raw \<le> 12 \<Longrightarrow> build_messages p raw = spec_build_messages p raw"
proof -
  assume len: "length raw \<le> 12"
  have "length (List.map_filter history_entry raw) \<le> 12"
    using length_map_filter_le[of history_entry raw] len by simp
  then show ?thesis
    using len by (simp add: build_messages_eq spec_build_messages_def slice_last_id Let_def)
qed

lemma read_choice_fallback:
  "payload \<noteq> JNull \<Longrightarrow> choice_content payload = None \<or> choice_content payload = Some JNull \<Longrightarrow>
   read_choice payload = Inr FALLBACK_REPLY"
  by (auto simp: read_choice_def)

lemma read_choice_content:
  "choice_content payload = Some (JStr s) \<Longrightarrow> read_choice payload = Inr (trim s)"
  by (cases payload) (auto simp: read_choice_def choice_content_def)

text \<open>
  C7 (as amended). The message list sent upstream is the system instruction, then the
  valid entries among the last at most 12 items of the history (an item is valid when
  its role is \<open>user\<close> or \<open>assistant\<close> and its content is a string that is not empty
  after trimming; the entry carries the trimmed content), then the prompt as a final
  user message unless the last retained entry is a user entry with the prompt as
  content. For a history of at most 12 items this is the specification's list. When the
  upstream answer has no content, the reply is the fallback apology; when it has a
  string, the reply is that string trimmed.
\<close>

theorem server_message_assembly:
  "build_messages p raw =
     (System, SYSTEM_PROMPT) #
     map (\<lambda>(r, c). (Chat r, c)) (List.map_filter history_entry (slice_last 12 raw)) @
     (if List.map_filter history_entry (slice_last 12 raw) \<noteq> [] \<and>
         last (List.map_filter history_entry (slice_last 12 raw)) = (User, p)
      then [] else [(Chat User, p)]) \<and>
   length (List.map_filter history_entry (slice_last 12 raw)) \<le> 12 \<and>
   (history_entry item = Some (r, c) \<longleftrightarrow>
     (\<exists>c0. get_prop item ''role'' = Some (JStr (role_name r)) \<and>
           get_prop item ''content'' = Some (JStr c0) \<and> trim c0 \<noteq> [] \<and> c = trim c0)) \<and>
   (length raw \<le> 12 \<longrightarrow> build_messages p raw = spec_build_messages p raw) \<and>
   (payload \<noteq> JNull \<and> (choice_content payload = None \<or> choice_content payload = Some JNull) \<longrightarrow>
      read_choice payload = Inr FALLBACK_REPLY) \<and>
   (choice_content payload = Some (JStr s) \<longrightarrow> read_choice payload = Inr (trim s)) \<and>
   (k \<noteq> [] \<and> body \<noteq> JNull \<and> read_prompt body \<noteq> [] \<and>
    upstream (build_messages (read_prompt body) (read_history body)) = Response st (Json payload) \<and>
    response_ok st \<and> payload \<noteq> JNull \<and>
    (choice_content payload = None \<or> choice_content payload = Some JNull) \<longrightarrow>
      POST (Some k) (Json body) upstream =
        Inr \<lparr>http_status = 200, http_body = JObj [(''reply'', JStr FALLBACK_REPLY)]\<rparr>)"
proof -
  have len: "length (List.map_filter history_entry (slice_last 12 raw)) \<le> 12"
    using length_map_filter_le[of history_entry "slice_last 12 raw"] slice_last_length[of 12 raw]
    by simp
  have post: "POST (Some k) (Json body) upstream =
        Inr \<lparr>http_status = 200, http_body = JObj [(''reply'', JStr FALLBACK_REPLY)]\<rparr>"
    if "k \<noteq> []" "body \<noteq> JNull" "read_prompt body \<noteq> []"
      "upstream (build_messages (read_prompt body) (read_history body)) = Response st (Json payload)"
      "response_ok st" "payload \<noteq> JNull"
      "choice_content payload = None \<or> choice_content payload = Some JNull"
    using that read_choice_fallback[of payload] by (simp add: POST_def Let_def)
  show ?thesis
    using build_messages_eq[of p raw] len history_entry_Some[of item r c]
      build_messages_short[of raw p] read_choice_fallback[of payload]
      read_choice_content[of payload s] post
    by blast
qed

theorem server_message_assembly_witness:
  "length mixed_history \<le> 12 \<and>
   build_messages ''next'' mixed_history = spec_build_messages ''next'' mixed_history \<and>
   build_messages ''next'' mixed_history =
     [(System, SYSTEM_PROMPT), (Chat User, ''hi''), (Chat Assistant, ''yo''),
      (Chat User, ''next'')] \<and>
   build_messages ''hi'' [entry_json (User, '' hi '')] =
     [(System, SYSTEM_PROMPT), (Chat User, ''hi'')] \<and>
   POST (Some ''key'') (Json (JObj [(''prompt'', JStr ''hi'')])) no_choices =
     Inr \<lparr>http_status = 200, http_body = JObj [(''reply'', JStr FALLBACK_REPLY)]\<rparr> \<and>
   POST (Some ''key'') (Json (JObj [(''prompt'', JStr ''hi'')])) (one_choice '' Welcome. '') =
     Inr \<lparr>http_status = 200, http_body = JObj [(''reply'', JStr ''Welcome.'')]\<rparr>"
proof -
  have h: "length mixed_history \<le> 12" by code_simp
  have a: "build_messages ''next'' mixed_history = spec_build_messages ''next'' mixed_history"
    using server_message_assembly[of "''next''" mixed_history] h by blast
  have b: "build_messages ''next'' mixed_history =
     [(System, SYSTEM_PROMPT), (Chat User, ''hi''), (Chat Assistant, ''yo''),
      (Chat User, ''next'')]"
    by code_simp
  have c: "build_messages ''hi'' [entry_json (User, '' hi '')] =
     [(System, SYSTEM_PROMPT), (Chat User, ''hi'')]"
    by code_simp
  have d: "POST (Some ''key'') (Json (JObj [(''prompt'', JStr ''hi'')])) no_choices =
     Inr \<lparr>http_status = 200, http_body = JObj [(''reply'', JStr FALLBACK_REPLY)]\<rparr>"
    by code_simp
  have e: "POST (Some ''key'') (Json (JObj [(''prompt'', JStr ''hi'')]))
             (one_choice '' Welcome. '') =
     Inr \<lparr>http_status = 200, http_body = JObj [(''reply'', JStr ''Welcome.'')]\<rparr>"
    by code_simp
  show ?thesis using h a b c d e by (intro conjI)
qed

text \<open>
  The claim as first stated fails for a history of thirteen items with an invalid one
  among the last twelve: the code keeps the eleven valid ones of the last twelve, the
  specification's list keeps the last twelve valid ones.
\<close>

theorem invalid_item_shortens_window:
  "build_messages ''next'' long_history \<noteq> spec_build_messages ''next'' long_history"
  by code_simp

lemma invalid_item_window_lengths:
  "length (build_messages ''next'' long_history) = 13 \<and>
   length (spec_build_messages ''next'' long_history) = 14"
  by code_simp

text \<open>
  The answers of the handler: without an API key the answer is 500; a body that does
  not parse is answered 400, and so is a body other than null without a usable prompt;
  an upstream response that is not ok is answered 502; an upstream call that throws, or
  whose body cannot be read, is answered 500; otherwise 200 with the reply. For every
  body other than null the handler returns one of these and raises nothing.
\<close>

lemma POST_missing_key:
  "apiKey = None \<or> apiKey = Some [] \<Longrightarrow>
   POST apiKey rb upstream =
     Inr (error_response 500 (JStr ''Server misconfigured: missing OpenAI API key.''))"
  by (auto simp: POST_def)

lemma POST_invalid_json:
  "k \<noteq> [] \<Longrightarrow>
   POST (Some k) (Unparseable e) upstream = Inr (error_response 400 (JStr ''Invalid JSON body.''))"
  by (simp add: POST_def)

lemma POST_no_prompt:
  "k \<noteq> [] \<Longrightarrow> body \<noteq> JNull \<Longrightarrow> read_prompt body = [] \<Longrightarrow>
   POST (Some k) (Json body) upstream =
     Inr (error_response 400 (JStr ''Provide a prompt message.''))"
  by (simp add: POST_def)

lemma POST_upstream_not_ok:
  "k \<noteq> [] \<Longrightarrow> body \<noteq> JNull \<Longrightarrow> read_prompt body \<noteq> [] \<Longrightarrow>
   upstream (build_messages (read_prompt body) (read_history body)) = Response st b \<Longrightarrow>
   \<not> response_ok st \<Longrightarrow>
   POST (Some k) (Json body) upstream = Inr (error_response 502 (upstream_error st b))"
  by (simp add: POST_def Let_def)

lemma POST_upstream_throws:
  "k \<noteq> [] \<Longrightarrow> body \<noteq> JNull \<Longrightarrow> read_prompt body \<noteq> [] \<Longrightarrow>
   upstream (build_messages (read_prompt body) (read_history body)) = Rejected err \<Longrightarrow>
   POST (Some k) (Json body) upstream =
     Inr (error_response 500 (JStr (message_or err ''Unexpected server error.'')))"
  by (simp add: POST_def Let_def)

lemma POST_reply:
  "k \<noteq> [] \<Longrightarrow> body \<noteq> JNull \<Longrightarrow> read_prompt body \<noteq> [] \<Longrightarrow>
   upstream (build_messages (read_prompt body) (read_history body)) = Response st (Json payload) \<Longrightarrow>
   response_ok st \<Longrightarrow> read_choice payload = Inr reply \<Longrightarrow>
   POST (Some k) (Json body) upstream =
     Inr \<lparr>http_status = 200, http_body = JObj [(''reply'', JStr reply)]\<rparr>"
  by (simp add: POST_def Let_def)

lemma POST_returns_unless_null:
  "rb \<noteq> Json JNull \<Longrightarrow>
   \<exists>resp. POST apiKey rb upstream = Inr resp \<and> http_status resp \<in> {200, 400, 500, 502}"
  by (cases rb)
    (auto simp: POST_def Let_def error_response_def
      split: fetch_outcome.splits body.splits sum.splits)

lemma POST_raises_iff:
  "isl (POST apiKey rb upstream) \<longleftrightarrow> apiKey \<noteq> None \<and> apiKey \<noteq> Some [] \<and> rb = Json JNull"
  by (cases rb)
    (auto simp: POST_def Let_def split: fetch_outcome.splits body.splits sum.splits)

text \<open>
  C8 says that the handler answers 400 for a malformed body or a missing or empty
  prompt, 500 without an API key or on an unexpected failure, 502 when the upstream
  response is not ok, 200 with the reply otherwise, and never raises. The code departs
  from it for the body \<open>null\<close>, which is well-formed JSON without a prompt:
  \<open>body.prompt\<close> is read outside every \<open>try\<close> block and throws, so the handler raises
  instead of answering 400.
\<close>

theorem null_body_raises:
  "POST (Some ''key'') (Json JNull) upstream =
     Inl (ErrorObj ''Cannot read properties of null (reading 'prompt')'')"
  by (simp add: POST_def)

end
